theory Spec2Isabelle
  imports Complex_Main "HOL-Library.AList" "HOL-Library.Multiset"
begin

section \<open>Data model (types.ts)\<close>

text \<open>
  JavaScript numbers that the program uses as identifiers, indices and counts are modelled
  as \<open>int\<close>; strings as \<open>string\<close>; \<open>T | null\<close> and optional fields as \<open>option\<close>.
  A \<open>char\<close> stands for a UTF-16 code unit below 256, so the model covers the strings
  made of such code units.
  Several interfaces share field names (\<open>id\<close>, \<open>title\<close>, \<open>summary\<close>, \<open>timestamp\<close>), so the
  fields of the smaller records carry a prefix.
\<close>

datatype ViewState = AUTH | UPLOAD | PROCESSING | DASHBOARD

datatype ExamType = UNIVERSITY | COMPETITIVE | SCHOOL | GENERAL

datatype TimeFrame = ONE_DAY | ONE_WEEK | ONE_MONTH

record QuizQuestion =
  question_id :: int
  question :: string
  options :: "string list"
  correctAnswerIndex :: int
  explanation :: string

record Flashcard =
  card_id :: int
  card_front :: string
  card_back :: string

text \<open>
  The fields of an \<open>ExamStrategy\<close> are declared mandatory, but the value is the unchecked
  result of \<open>JSON.parse\<close>, which for the fallback text \<open>{}\<close> is an object with no field;
  a field that is \<open>undefined\<close> at run time is \<open>None\<close>.
\<close>

record ExamStrategy =
  priorityTopics :: "string list option"
  skipTopics :: "string list option"
  focusAdvice :: "string option"

record LectureData =
  title :: string
  transcript :: string
  videoUrl :: "string option"
  videoId :: "string option"

record Chapter =
  chapter_timestamp :: string
  chapter_title :: string
  chapter_summary :: string

record Formula =
  expression :: string
  description :: string

datatype Sender = SenderUser | SenderAi

text \<open>A \<open>Date\<close> is the number of milliseconds it holds.\<close>

record ChatMessage =
  message_id :: string
  sender :: Sender
  message_text :: string
  timestamp :: nat

record User =
  user_id :: string
  email :: string
  name :: "string option"

record AppState =
  view :: ViewState
  user :: "User option"
  lecture :: "LectureData option"
  examType :: ExamType
  timeFrame :: TimeFrame
  summary :: string
  chapters :: "Chapter list"
  formulas :: "Formula list"
  strategy :: "ExamStrategy option"
  quiz :: "QuizQuestion list"
  flashcards :: "Flashcard list"
  cheatSheet :: string
  chatHistory :: "ChatMessage list"
  error :: "string option"
  successMessage :: "string option"

section \<open>Flashcard deck (FlashcardDeck)\<close>

text \<open>
  JavaScript's \<open>%\<close> on integers: the result takes the sign of the dividend. With a zero
  divisor JavaScript yields NaN; the deck renders its buttons only when
  \<open>cards.length\<close> is not 0, so the handlers below run with a positive divisor.
\<close>

definition js_rem :: "int \<Rightarrow> int \<Rightarrow> int" where
  "js_rem a b = sgn a * (\<bar>a\<bar> mod \<bar>b\<bar>)"

record DeckState =
  currentIndex :: int
  flipped :: bool

definition deckInit :: DeckState where
  "deckInit = \<lparr>currentIndex = 0, flipped = False\<rparr>"

text \<open>
  \<open>handleNext\<close> and \<open>handlePrev\<close> clear \<open>flipped\<close> at once and update the index from a
  timer 300 ms later; the model is the state after the timer has fired.
\<close>

definition handleNext :: "Flashcard list \<Rightarrow> DeckState \<Rightarrow> DeckState" where
  "handleNext cards s =
     s\<lparr>flipped := False,
       currentIndex := js_rem (currentIndex s + 1) (int (length cards))\<rparr>"

definition handlePrev :: "Flashcard list \<Rightarrow> DeckState \<Rightarrow> DeckState" where
  "handlePrev cards s =
     s\<lparr>flipped := False,
       currentIndex := js_rem (currentIndex s - 1 + int (length cards)) (int (length cards))\<rparr>"

section \<open>Quiz runner (QuizComponent)\<close>

text \<open>
  \<open>userAnswers\<close> is a JavaScript object used as a dictionary from question id to option
  index. It is an association list with one entry per key: \<open>{...prev, [qId]: optionIdx}\<close>
  is \<open>AList.update\<close>, \<open>userAnswers[k]\<close> is \<open>map_of\<close> (\<open>None\<close> for \<open>undefined\<close>) and
  \<open>Object.keys(userAnswers).length\<close> is the length of the list.
\<close>

record QuizState =
  userAnswers :: "(int \<times> int) list"
  showResults :: bool

definition quizInit :: QuizState where
  "quizInit = \<lparr>userAnswers = [], showResults = False\<rparr>"

definition handleOptionSelect :: "int \<Rightarrow> int \<Rightarrow> QuizState \<Rightarrow> QuizState" where
  "handleOptionSelect qId optionIdx s =
     (if showResults s then s
      else s\<lparr>userAnswers := AList.update qId optionIdx (userAnswers s)\<rparr>)"

text \<open>A history of option clicks, oldest first, applied to a quiz state.\<close>

fun selectAll :: "(int \<times> int) list \<Rightarrow> QuizState \<Rightarrow> QuizState" where
  "selectAll [] s = s"
| "selectAll ((qId, optionIdx) # rest) s = selectAll rest (handleOptionSelect qId optionIdx s)"

text \<open>\<open>calculateScore\<close>: the \<open>forEach\<close> loop with its counter as accumulator.\<close>

fun scoreLoop :: "(int \<times> int) list \<Rightarrow> QuizQuestion list \<Rightarrow> nat \<Rightarrow> nat" where
  "scoreLoop answers [] score = score"
| "scoreLoop answers (q # qs) score =
     scoreLoop answers qs
       (if map_of answers (question_id q) = Some (correctAnswerIndex q) then score + 1 else score)"

definition calculateScore :: "QuizQuestion list \<Rightarrow> (int \<times> int) list \<Rightarrow> nat" where
  "calculateScore questions answers = scoreLoop answers questions 0"




text \<open>The \<open>disabled\<close> attribute of the Submit button, negated.\<close>

definition submitEnabled :: "QuizQuestion list \<Rightarrow> QuizState \<Rightarrow> bool" where
  "submitEnabled questions s = (\<not> (length (userAnswers s) < length questions))"

definition answered :: "QuizState \<Rightarrow> QuizQuestion \<Rightarrow> bool" where
  "answered s q = (map_of (userAnswers s) (question_id q) \<noteq> None)"

section \<open>Video-id extraction (extractVideoId)\<close>

text \<open>
  The pattern of the source is
  \<^verbatim>\<open>/^.*(youtu.be\/|v\/|u\/\w\/|embed\/|watch\?v=|&v=)([^#&?]*).*/\<close>.
  A marker (group 1) is a sequence of atoms: a literal character, the unescaped dot of
  \<open>youtu.be\<close> (any character but a line terminator) or \<open>\w\<close>. Among the code
  units below 256 the line terminators are LF and CR.
\<close>

datatype atom = Lit char | AnyChar | WordChar

definition lineTerminator :: "char \<Rightarrow> bool" where
  "lineTerminator c = (c = CHR 0x0A \<or> c = CHR 0x0D)"

definition wordChar :: "char \<Rightarrow> bool" where
  "wordChar c =
     (let n = (of_char c :: nat)
      in (48 \<le> n \<and> n \<le> 57) \<or> (65 \<le> n \<and> n \<le> 90) \<or> (97 \<le> n \<and> n \<le> 122) \<or> n = 95)"

fun atomMatches :: "atom \<Rightarrow> char \<Rightarrow> bool" where
  "atomMatches (Lit a) c = (c = a)"
| "atomMatches AnyChar c = (\<not> lineTerminator c)"
| "atomMatches WordChar c = wordChar c"

text \<open>Matching a sequence of atoms at the head of a string; the result is what follows it.\<close>

fun matchSeq :: "atom list \<Rightarrow> string \<Rightarrow> string option" where
  "matchSeq [] s = Some s"
| "matchSeq (a # as) [] = None"
| "matchSeq (a # as) (c # s) = (if atomMatches a c then matchSeq as s else None)"

definition lits :: "string \<Rightarrow> atom list" where
  "lits s = map Lit s"

definition markers :: "atom list list" where
  "markers =
     [lits ''youtu'' @ [AnyChar] @ lits ''be/'',
      lits ''v/'',
      lits ''u/'' @ [WordChar] @ lits ''/'',
      lits ''embed/'',
      lits ''watch?v='',
      lits ''&v='']"

text \<open>
  The alternatives of group 1 are tried in order. What follows group 1 in the pattern
  (\<open>([^#&?]*).*\<close>) matches at every position, so the first alternative that matches is
  never given up.
\<close>

fun firstAlt :: "atom list list \<Rightarrow> string \<Rightarrow> string option" where
  "firstAlt [] s = None"
| "firstAlt (alt # alts) s =
     (case matchSeq alt s of Some rest \<Rightarrow> Some rest | None \<Rightarrow> firstAlt alts s)"

text \<open>Group 2, \<open>([^#&?]*)\<close>, is greedy: the longest run of characters other than #, & and ?.\<close>

definition idChar :: "char \<Rightarrow> bool" where
  "idChar c = (c \<noteq> CHR ''#'' \<and> c \<noteq> CHR ''&'' \<and> c \<noteq> CHR ''?'')"

definition idChars :: "string \<Rightarrow> string" where
  "idChars s = takeWhile idChar s"

text \<open>
  The leading \<open>^.*\<close> is greedy: it first takes every character up to the first line
  terminator and then gives characters back one at a time until a marker matches at the
  position reached. \<open>backtrack k url\<close> tries the positions \<open>k, k - 1, \<dots>, 0\<close> in this order
  and yields what follows the marker.
\<close>

fun backtrack :: "nat \<Rightarrow> string \<Rightarrow> string option" where
  "backtrack 0 url = firstAlt markers url"
| "backtrack (Suc k) url =
     (case firstAlt markers (drop (Suc k) url) of
        Some rest \<Rightarrow> Some rest
      | None \<Rightarrow> backtrack k url)"

definition extractVideoId :: "string \<Rightarrow> string option" where
  "extractVideoId url =
     (case backtrack (length (takeWhile (\<lambda>c. \<not> lineTerminator c) url)) url of
        None \<Rightarrow> None
      | Some rest \<Rightarrow> (if length (idChars rest) = 11 then Some (idChars rest) else None))"

text \<open>
  A marker is recognised at position \<open>p\<close> of \<open>url\<close>, followed by \<open>rest\<close>, when \<open>^.*\<close> can
  reach \<open>p\<close> and an alternative of group 1 matches there.
\<close>

definition recognised :: "string \<Rightarrow> nat \<Rightarrow> string \<Rightarrow> bool" where
  "recognised url p rest =
     (p \<le> length url \<and> list_all (\<lambda>c. \<not> lineTerminator c) (take p url)
      \<and> firstAlt markers (drop p url) = Some rest)"

text \<open>A string that is exactly one marker: some alternative of group 1 matches all of it.\<close>

definition knownMarker :: "string \<Rightarrow> bool" where
  "knownMarker mk = list_ex (\<lambda>alt. matchSeq alt mk = Some []) markers"

section \<open>The AI collaborator and the generators (geminiService)\<close>

text \<open>
  \<open>ai.models.generateContent\<close> is an external call. Its outcome is an input of the model:
  a free-text request either rejects or resolves with a response whose \<open>text\<close> may be
  \<open>undefined\<close>; for a request with a response schema the text is passed to \<open>JSON.parse\<close>,
  and the outcome is classified by what \<open>JSON.parse\<close> does with it. A decoded value is
  used as it is: the source casts it with \<open>as\<close> and checks nothing. The prompt (the
  transcript cut by \<open>substring\<close>) only reaches the collaborator and is not modelled.
\<close>

datatype text_response =
    TextRejects
  | TextResponse "string option"

datatype 'a json_response =
    JsonRejects
  | JsonNoText
  | JsonMalformed
  | JsonValue 'a

datatype error = Error string

text \<open>\<open>t || d\<close> on a string that may be \<open>undefined\<close>: \<open>undefined\<close> and the empty string are falsy.\<close>

definition orElse :: "string option \<Rightarrow> string \<Rightarrow> string" where
  "orElse t d = (case t of None \<Rightarrow> d | Some s \<Rightarrow> (if s = [] then d else s))"

definition generateSummary :: "text_response \<Rightarrow> error + string" where
  "generateSummary r =
     (case r of
        TextRejects \<Rightarrow> Inl (Error ''Could not generate summary.'')
      | TextResponse t \<Rightarrow> Inr (orElse t ''Failed to generate summary.''))"

definition generateChapters :: "Chapter list json_response \<Rightarrow> error + Chapter list" where
  "generateChapters r =
     (case r of
        JsonRejects \<Rightarrow> Inr []
      | JsonNoText \<Rightarrow> Inr []
      | JsonMalformed \<Rightarrow> Inr []
      | JsonValue v \<Rightarrow> Inr v)"

definition extractFormulas :: "Formula list json_response \<Rightarrow> error + Formula list" where
  "extractFormulas r =
     (case r of
        JsonRejects \<Rightarrow> Inr []
      | JsonNoText \<Rightarrow> Inr []
      | JsonMalformed \<Rightarrow> Inr []
      | JsonValue v \<Rightarrow> Inr v)"

definition defaultStrategy :: ExamStrategy where
  "defaultStrategy =
     \<lparr>priorityTopics = Some [''Core Concepts''],
      skipTopics = Some [''Detailed derivations''],
      focusAdvice = Some ''Focus on the main summary points.''\<rparr>"

definition emptyObject :: ExamStrategy where
  "emptyObject = \<lparr>priorityTopics = None, skipTopics = None, focusAdvice = None\<rparr>"

definition generateExamStrategy :: "ExamStrategy json_response \<Rightarrow> error + ExamStrategy" where
  "generateExamStrategy r =
     (case r of
        JsonRejects \<Rightarrow> Inr defaultStrategy
      | JsonNoText \<Rightarrow> Inr emptyObject
      | JsonMalformed \<Rightarrow> Inr defaultStrategy
      | JsonValue v \<Rightarrow> Inr v)"

definition generateQuiz :: "QuizQuestion list json_response \<Rightarrow> error + QuizQuestion list" where
  "generateQuiz r =
     (case r of
        JsonRejects \<Rightarrow> Inr []
      | JsonNoText \<Rightarrow> Inr []
      | JsonMalformed \<Rightarrow> Inr []
      | JsonValue v \<Rightarrow> Inr v)"

definition generateFlashcards :: "Flashcard list json_response \<Rightarrow> error + Flashcard list" where
  "generateFlashcards r =
     (case r of
        JsonRejects \<Rightarrow> Inr []
      | JsonNoText \<Rightarrow> Inr []
      | JsonMalformed \<Rightarrow> Inr []
      | JsonValue v \<Rightarrow> Inr v)"

definition generateCheatSheet :: "text_response \<Rightarrow> error + string" where
  "generateCheatSheet r =
     (case r of
        TextRejects \<Rightarrow> Inr ''Could not generate cheat sheet.''
      | TextResponse t \<Rightarrow> Inr (orElse t []))"

definition chatWithLecture :: "text_response \<Rightarrow> error + string" where
  "chatWithLecture r =
     (case r of
        TextRejects \<Rightarrow> Inr ''Sorry, I encountered an error answering that.''
      | TextResponse t \<Rightarrow> Inr (orElse t (''I'' @ [CHR 0x27] @ ''m having trouble thinking right now.'')))"

section \<open>Application state transitions (App)\<close>

definition initialAppState :: AppState where
  "initialAppState =
     \<lparr>view = AUTH, user = None, lecture = None, examType = UNIVERSITY, timeFrame = ONE_WEEK,
      summary = [], chapters = [], formulas = [], strategy = None, quiz = [],
      flashcards = [], cheatSheet = [], chatHistory = [], error = None,
      successMessage = None\<rparr>"

definition handleLogin :: "User \<Rightarrow> AppState \<Rightarrow> AppState" where
  "handleLogin u prev = prev\<lparr>user := Some u, view := UPLOAD\<rparr>"

definition handleSignOut :: "AppState \<Rightarrow> AppState" where
  "handleSignOut prev =
     prev\<lparr>view := AUTH, user := None, lecture := None, summary := [], quiz := [],
          error := None\<rparr>"

definition handleReset :: "AppState \<Rightarrow> AppState" where
  "handleReset prev =
     prev\<lparr>view := UPLOAD, lecture := None, summary := [], quiz := [], error := None\<rparr>"

text \<open>The outcomes of the seven requests of one fan-out, in the order of the array.\<close>

record Replies =
  summaryReply :: text_response
  chaptersReply :: "Chapter list json_response"
  formulasReply :: "Formula list json_response"
  strategyReply :: "ExamStrategy json_response"
  quizReply :: "QuizQuestion list json_response"
  flashcardsReply :: "Flashcard list json_response"
  cheatSheetReply :: text_response

record Artifacts =
  art_summary :: string
  art_chapters :: "Chapter list"
  art_formulas :: "Formula list"
  art_strategy :: ExamStrategy
  art_quiz :: "QuizQuestion list"
  art_flashcards :: "Flashcard list"
  art_cheatSheet :: string

definition bindE :: "'e + 'a \<Rightarrow> ('a \<Rightarrow> 'e + 'b) \<Rightarrow> 'e + 'b" where
  "bindE r f = (case r of Inl e \<Rightarrow> Inl e | Inr v \<Rightarrow> f v)"

text \<open>
  \<open>Promise.all\<close> over the seven generators: it resolves with all seven values when every
  promise resolves and rejects when one of them rejects. The handler of the rejection
  only logs the reason, so which rejection is reported makes no difference to the state;
  the model reports the first in array order.
\<close>

definition promiseAll :: "Replies \<Rightarrow> error + Artifacts" where
  "promiseAll r =
     bindE (generateSummary (summaryReply r)) (\<lambda>sm.
     bindE (generateChapters (chaptersReply r)) (\<lambda>ch.
     bindE (extractFormulas (formulasReply r)) (\<lambda>fo.
     bindE (generateExamStrategy (strategyReply r)) (\<lambda>st.
     bindE (generateQuiz (quizReply r)) (\<lambda>qz.
     bindE (generateFlashcards (flashcardsReply r)) (\<lambda>fc.
     bindE (generateCheatSheet (cheatSheetReply r)) (\<lambda>cs.
       Inr \<lparr>art_summary = sm, art_chapters = ch, art_formulas = fo, art_strategy = st,
            art_quiz = qz, art_flashcards = fc, art_cheatSheet = cs\<rparr>)))))))"

definition welcomeMessage :: "nat \<Rightarrow> ChatMessage" where
  "welcomeMessage now =
     \<lparr>message_id = ''welcome'', sender = SenderAi,
      message_text = ''Hi! I am your AI Tutor. I have analyzed the lecture. Ask me anything about the concepts or specific doubts!'',
      timestamp = now\<rparr>"

definition processingError :: string where
  "processingError = ''An error occurred while communicating with the AI. Please try again.''"

text \<open>The first \<open>setAppState\<close> of \<open>handleStartProcessing\<close>, before the requests are issued.\<close>

definition startProcessing ::
  "string \<Rightarrow> string \<Rightarrow> ExamType \<Rightarrow> TimeFrame \<Rightarrow> string option \<Rightarrow> AppState \<Rightarrow> AppState" where
  "startProcessing transcriptText lectureTitle exam frame vid prev =
     prev\<lparr>view := PROCESSING,
          lecture := Some \<lparr>title = lectureTitle, transcript = transcriptText,
                           videoUrl = None, videoId = vid\<rparr>,
          examType := exam, timeFrame := frame\<rparr>"

text \<open>The second \<open>setAppState\<close>: the \<open>try\<close> branch on success, the \<open>catch\<close> branch on rejection.\<close>

definition finishProcessing :: "error + Artifacts \<Rightarrow> nat \<Rightarrow> AppState \<Rightarrow> AppState" where
  "finishProcessing outcome now prev =
     (case outcome of
        Inr a \<Rightarrow>
          prev\<lparr>view := DASHBOARD, summary := art_summary a, chapters := art_chapters a,
               formulas := art_formulas a, strategy := Some (art_strategy a),
               quiz := art_quiz a, flashcards := art_flashcards a,
               cheatSheet := art_cheatSheet a, chatHistory := [welcomeMessage now]\<rparr>
      | Inl e \<Rightarrow> prev\<lparr>view := UPLOAD, error := Some processingError\<rparr>)"

text \<open>
  \<open>handleStartProcessing\<close> from the submission to the end of the \<open>try\<close>/\<open>catch\<close>, with no
  other event in between; \<open>now\<close> is the clock reading of \<open>new Date()\<close>.
\<close>

definition handleStartProcessing ::
  "Replies \<Rightarrow> nat \<Rightarrow> string \<Rightarrow> string \<Rightarrow> ExamType \<Rightarrow> TimeFrame \<Rightarrow> string option
   \<Rightarrow> AppState \<Rightarrow> AppState" where
  "handleStartProcessing replies now transcriptText lectureTitle exam frame vid prev =
     finishProcessing (promiseAll replies) now
       (startProcessing transcriptText lectureTitle exam frame vid prev)"

section \<open>Tutor chat (Dashboard)\<close>

record ChatState =
  chatMessages :: "ChatMessage list"
  chatInput :: string
  isChatLoading :: bool

text \<open>
  \<open>String.prototype.trim\<close> strips white space and line terminators. Among the code units
  below 256 these are TAB, LF, VT, FF, CR, the space and the no-break space U+00A0.
\<close>

definition jsWhitespace :: "char \<Rightarrow> bool" where
  "jsWhitespace c =
     (c = CHR 0x09 \<or> c = CHR 0x0A \<or> c = CHR 0x0B \<or> c = CHR 0x0C \<or> c = CHR 0x0D \<or> c = CHR 0x20
      \<or> c = CHR 0xA0)"

definition trim :: "string \<Rightarrow> string" where
  "trim s = rev (dropWhile jsWhitespace (rev (dropWhile jsWhitespace s)))"

text \<open>\<open>Number.prototype.toString\<close> on a non-negative integer: its decimal digits.\<close>

definition digitChar :: "nat \<Rightarrow> char" where
  "digitChar d = ''0123456789'' ! d"

fun toString :: "nat \<Rightarrow> string" where
  "toString n = (if n < 10 then [digitChar n] else toString (n div 10) @ [digitChar (n mod 10)])"

declare toString.simps [simp del]

text \<open>
  \<open>handleSendMessage\<close> from the click to the end of \<open>finally\<close>. \<open>reply\<close> is the outcome of
  the request made by \<open>chatWithLecture\<close>; \<open>t1\<close> and \<open>t2\<close> are the readings of \<open>Date.now()\<close>
  and \<open>d1\<close> and \<open>d2\<close> those of \<open>new Date()\<close>, before and after the request.
\<close>

definition handleSendMessage ::
  "text_response \<Rightarrow> nat \<Rightarrow> nat \<Rightarrow> nat \<Rightarrow> nat \<Rightarrow> ChatState \<Rightarrow> ChatState" where
  "handleSendMessage reply t1 d1 t2 d2 s =
     (if trim (chatInput s) = [] then s
      else
        let userMsg = \<lparr>message_id = toString t1, sender = SenderUser,
                       message_text = chatInput s, timestamp = d1\<rparr>;
            s1 = s\<lparr>chatMessages := chatMessages s @ [userMsg], chatInput := [],
                   isChatLoading := True\<rparr>
        in (case chatWithLecture reply of
              Inr response \<Rightarrow>
                s1\<lparr>chatMessages :=
                      chatMessages s1 @
                        [\<lparr>message_id = toString (t2 + 1), sender = SenderAi,
                          message_text = response, timestamp = d2\<rparr>],
                    isChatLoading := False\<rparr>
            | Inl e \<Rightarrow> s1\<lparr>isChatLoading := False\<rparr>))"

definition chatInit :: "AppState \<Rightarrow> ChatState" where
  "chatInit app = \<lparr>chatMessages = chatHistory app, chatInput = [], isChatLoading = False\<rparr>"

section \<open>Well-formed questions\<close>

text \<open>The invariant that \<open>types.ts\<close> notes on a question: 4 options and an index from 0 to 3.\<close>

definition wellFormedQuestion :: "QuizQuestion \<Rightarrow> bool" where
  "wellFormedQuestion q =
     (length (options q) = 4 \<and> 0 \<le> correctAnswerIndex q \<and> correctAnswerIndex q < 4)"

section \<open>Sample data\<close>

definition deck3 :: "Flashcard list" where
  "deck3 =
     [\<lparr>card_id = 1, card_front = ''a'', card_back = ''b''\<rparr>,
      \<lparr>card_id = 2, card_front = ''c'', card_back = ''d''\<rparr>,
      \<lparr>card_id = 3, card_front = ''e'', card_back = ''f''\<rparr>]"

definition sampleQuestion :: "int \<Rightarrow> int \<Rightarrow> QuizQuestion" where
  "sampleQuestion i c =
     \<lparr>question_id = i, question = ''Q'', options = [''a'', ''b'', ''c'', ''d''],
      correctAnswerIndex = c, explanation = ''E''\<rparr>"

definition quiz3 :: "QuizQuestion list" where
  "quiz3 = [sampleQuestion 1 2, sampleQuestion 2 0, sampleQuestion 3 3]"

definition clicks3 :: "(int \<times> int) list" where
  "clicks3 = [(1, 2), (2, 1), (3, 3)]"

definition clicks3_reordered :: "(int \<times> int) list" where
  "clicks3_reordered = [(3, 3), (1, 2), (2, 1)]"

definition quiz10 :: "QuizQuestion list" where
  "quiz10 =
     [sampleQuestion 1 0, sampleQuestion 2 1, sampleQuestion 3 2, sampleQuestion 4 3,
      sampleQuestion 5 0, sampleQuestion 6 1, sampleQuestion 7 2, sampleQuestion 8 3,
      sampleQuestion 9 0, sampleQuestion 10 1]"

definition clicks9 :: "(int \<times> int) list" where
  "clicks9 = [(1, 0), (2, 0), (3, 0), (4, 0), (5, 0), (6, 0), (7, 0), (8, 0), (9, 0)]"

text \<open>Two questions that the collaborator numbered alike.\<close>

definition quizSameId :: "QuizQuestion list" where
  "quizSameId = [sampleQuestion 1 0, sampleQuestion 1 3]"

text \<open>A question with two options and an index outside them.\<close>

definition shortQuestion :: QuizQuestion where
  "shortQuestion =
     \<lparr>question_id = 1, question = ''Q'', options = [''yes'', ''no''],
      correctAnswerIndex = 7, explanation = ''E''\<rparr>"

definition demoUser :: User where
  "demoUser = \<lparr>user_id = ''u1'', email = ''a@b.com'', name = Some ''Jane''\<rparr>"

definition uploadState :: AppState where
  "uploadState = handleLogin demoUser initialAppState"

definition okReplies :: Replies where
  "okReplies =
     \<lparr>summaryReply = TextResponse (Some ''Overview''),
      chaptersReply = JsonValue [\<lparr>chapter_timestamp = ''00:00'', chapter_title = ''Intro'',
                                 chapter_summary = ''Opening.''\<rparr>],
      formulasReply = JsonValue [\<lparr>expression = ''E = mc^2'', description = ''Energy''\<rparr>],
      strategyReply = JsonValue defaultStrategy,
      quizReply = JsonValue [sampleQuestion 1 2],
      flashcardsReply = JsonValue [\<lparr>card_id = 1, card_front = ''F'', card_back = ''B''\<rparr>],
      cheatSheetReply = TextResponse (Some ''Sheet'')\<rparr>"

text \<open>The state on the dashboard after a successful run from the upload screen.\<close>

definition dashboardState :: AppState where
  "dashboardState =
     handleStartProcessing okReplies 0 ''Welcome'' ''Lecture'' UNIVERSITY ONE_WEEK None uploadState"

definition askingState :: ChatState where
  "askingState = \<lparr>chatMessages = [welcomeMessage 0], chatInput = ''Why?'', isChatLoading = False\<rparr>"

section \<open>Flashcard navigation is cyclic\<close>

lemma js_rem_nonneg: "0 \<le> a \<Longrightarrow> 0 < b \<Longrightarrow> js_rem a b = a mod b"
  by (simp add: js_rem_def sgn_if)

lemma handleNext_index:
  assumes "cards \<noteq> []" and "0 \<le> currentIndex s"
  shows "currentIndex (handleNext cards s) = (currentIndex s + 1) mod int (length cards)"
  using assms by (simp add: handleNext_def js_rem_nonneg)

lemma handleNext_iter:
  assumes "cards \<noteq> []" and "0 \<le> currentIndex s" and "currentIndex s < int (length cards)"
  shows "currentIndex ((handleNext cards ^^ k) s) = (currentIndex s + int k) mod int (length cards)"
proof (induction k)
  case 0
  show ?case using assms by simp
next
  case (Suc k)
  let ?n = "int (length cards)"
  have pos: "0 < ?n" using assms(1) by simp
  have nn: "0 \<le> currentIndex ((handleNext cards ^^ k) s)"
    using Suc pos by simp
  have "currentIndex ((handleNext cards ^^ Suc k) s)
        = ((currentIndex s + int k) mod ?n + 1) mod ?n"
    using handleNext_index [OF assms(1) nn] Suc by simp
  also have "\<dots> = (currentIndex s + int k + 1) mod ?n"
    by (simp add: mod_add_left_eq)
  finally show ?case by (simp add: ac_simps)
qed

lemma handlePrev_index:
  assumes "cards \<noteq> []" and "0 \<le> currentIndex s"
  shows "currentIndex (handlePrev cards s) = (currentIndex s - 1) mod int (length cards)"
proof -
  let ?n = "int (length cards)"
  have pos: "0 < ?n" using assms(1) by simp
  have "1 \<le> ?n" using assms(1) by (cases cards) simp_all
  with assms(2) have "0 \<le> currentIndex s - 1 + ?n" by linarith
  then have "js_rem (currentIndex s - 1 + ?n) ?n = (currentIndex s - 1 + ?n) mod ?n"
    using pos by (rule js_rem_nonneg)
  also have "\<dots> = (currentIndex s - 1) mod ?n" by simp
  finally show ?thesis by (simp add: handlePrev_def)
qed

lemma handlePrev_iter:
  assumes "cards \<noteq> []" and "0 \<le> currentIndex s" and "currentIndex s < int (length cards)"
  shows "currentIndex ((handlePrev cards ^^ k) s) = (currentIndex s - int k) mod int (length cards)"
proof (induction k)
  case 0
  show ?case using assms by simp
next
  case (Suc k)
  let ?n = "int (length cards)"
  have pos: "0 < ?n" using assms(1) by simp
  have nn: "0 \<le> currentIndex ((handlePrev cards ^^ k) s)"
    using Suc pos by simp
  have "currentIndex ((handlePrev cards ^^ Suc k) s)
        = ((currentIndex s - int k) mod ?n - 1) mod ?n"
    using handlePrev_index [OF assms(1) nn] Suc by simp
  also have "\<dots> = (currentIndex s - int k - 1) mod ?n"
    by (simp add: mod_diff_left_eq)
  finally show ?case by (simp add: algebra_simps)
qed

text \<open>
  Claim C9. On a non-empty deck of \<open>N\<close> cards and from any index in \<open>[0,N)\<close>, \<open>handleNext\<close>
  moves to the following index and from the last one to index 0, and \<open>handlePrev\<close> moves to
  the preceding index and from index 0 to \<open>N - 1\<close>: both step by one modulo \<open>N\<close> and undo
  each other. \<open>k\<close> steps move by \<open>k\<close> modulo \<open>N\<close>, so \<open>N\<close> steps in either direction lead back
  to the starting index; in particular \<open>N\<close> applications of \<open>handleNext\<close> from index 0 return
  to index 0. Both handlers turn the card face up again.
\<close>

theorem deck_navigation_cyclic:
  assumes "cards \<noteq> []" and "0 \<le> currentIndex s" and "currentIndex s < int (length cards)"
  shows "currentIndex (handleNext cards s)
           = (if currentIndex s + 1 = int (length cards) then 0 else currentIndex s + 1)
       \<and> currentIndex (handlePrev cards s)
           = (if currentIndex s = 0 then int (length cards) - 1 else currentIndex s - 1)
       \<and> currentIndex (handleNext cards s) = (currentIndex s + 1) mod int (length cards)
       \<and> currentIndex (handlePrev cards s) = (currentIndex s - 1) mod int (length cards)
       \<and> currentIndex ((handleNext cards ^^ k) s)
           = (currentIndex s + int k) mod int (length cards)
       \<and> currentIndex ((handlePrev cards ^^ k) s)
           = (currentIndex s - int k) mod int (length cards)
       \<and> currentIndex ((handleNext cards ^^ length cards) s) = currentIndex s
       \<and> currentIndex ((handlePrev cards ^^ length cards) s) = currentIndex s
       \<and> currentIndex (handlePrev cards (handleNext cards s)) = currentIndex s
       \<and> currentIndex (handleNext cards (handlePrev cards s)) = currentIndex s
       \<and> (currentIndex s = 0 \<longrightarrow>
            currentIndex ((handleNext cards ^^ length cards) s) = 0
          \<and> currentIndex (handlePrev cards s) = int (length cards) - 1)
       \<and> \<not> flipped (handleNext cards s) \<and> \<not> flipped (handlePrev cards s)"
proof -
  let ?n = "int (length cards)" and ?i = "currentIndex s"
  have pos: "0 < ?n" using assms(1) by simp
  have n1: "currentIndex (handleNext cards s) = (?i + 1) mod ?n"
    using assms by (simp add: handleNext_index)
  have p1: "currentIndex (handlePrev cards s) = (?i - 1) mod ?n"
    using assms by (simp add: handlePrev_index)
  have n1': "(?i + 1) mod ?n = (if ?i + 1 = ?n then 0 else ?i + 1)"
    using assms(2,3) by (simp add: mod_pos_pos_trivial)
  have p1': "(?i - 1) mod ?n = (if ?i = 0 then ?n - 1 else ?i - 1)"
  proof (cases "?i = 0")
    case True
    have "(- 1) mod ?n = ?n - 1" using pos by (rule zmod_minus1)
    with True show ?thesis by simp
  next
    case False
    with assms(2,3) show ?thesis by (simp add: mod_pos_pos_trivial)
  qed
  have nk: "currentIndex ((handleNext cards ^^ k) s) = (?i + int k) mod ?n" for k
    using assms by (rule handleNext_iter)
  have pk: "currentIndex ((handlePrev cards ^^ k) s) = (?i - int k) mod ?n" for k
    using assms by (rule handlePrev_iter)
  have nN: "currentIndex ((handleNext cards ^^ length cards) s) = ?i"
    using nk [of "length cards"] assms(2,3) by (simp add: mod_pos_pos_trivial)
  have pN: "currentIndex ((handlePrev cards ^^ length cards) s) = ?i"
  proof -
    have "(?i - ?n) mod ?n = ?i mod ?n" by simp
    with pk [of "length cards"] assms(2,3) show ?thesis by (simp add: mod_pos_pos_trivial)
  qed
  have rn: "0 \<le> currentIndex (handleNext cards s)" using n1 pos by simp
  have rp: "0 \<le> currentIndex (handlePrev cards s)" using p1 pos by simp
  have pn: "currentIndex (handlePrev cards (handleNext cards s)) = ?i"
  proof -
    have "currentIndex (handlePrev cards (handleNext cards s)) = ((?i + 1) mod ?n - 1) mod ?n"
      using handlePrev_index [OF assms(1) rn] n1 by simp
    also have "\<dots> = (?i + 1 - 1) mod ?n" by (simp only: mod_diff_left_eq)
    finally show ?thesis using assms(2,3) by (simp add: mod_pos_pos_trivial)
  qed
  have np: "currentIndex (handleNext cards (handlePrev cards s)) = ?i"
  proof -
    have "currentIndex (handleNext cards (handlePrev cards s)) = ((?i - 1) mod ?n + 1) mod ?n"
      using handleNext_index [OF assms(1) rp] p1 by simp
    also have "\<dots> = (?i - 1 + 1) mod ?n" by (simp only: mod_add_left_eq)
    finally show ?thesis using assms(2,3) by (simp add: mod_pos_pos_trivial)
  qed
  have fl: "\<not> flipped (handleNext cards s)" "\<not> flipped (handlePrev cards s)"
    by (simp_all add: handleNext_def handlePrev_def)
  from n1 p1 n1' p1' nk [of k] pk [of k] nN pN pn np fl show ?thesis by simp
qed

text \<open>The deck of three cards, from the initial state of the component.\<close>

theorem deck_navigation_cyclic_witness:
  "deck3 \<noteq> [] \<and> currentIndex deckInit = 0
   \<and> currentIndex (handleNext deck3 deckInit) = 1
   \<and> currentIndex (handleNext deck3 (handleNext deck3 deckInit)) = 2
   \<and> currentIndex (handleNext deck3 (handleNext deck3 (handleNext deck3 deckInit))) = 0
   \<and> currentIndex (handlePrev deck3 deckInit) = 2
   \<and> currentIndex (handlePrev deck3 (handlePrev deck3 deckInit)) = 1
   \<and> currentIndex (handlePrev deck3 (handleNext deck3 deckInit)) = 0"
proof -
  have n: "deck3 \<noteq> []" "int (length deck3) = 3" by (simp_all add: deck3_def)
  have i0: "currentIndex deckInit = 0" by (simp add: deckInit_def)
  have s1: "currentIndex (handleNext deck3 deckInit) = 1"
    using deck_navigation_cyclic [of deck3 deckInit 0] n i0 by simp
  have s2: "currentIndex (handleNext deck3 (handleNext deck3 deckInit)) = 2"
    using deck_navigation_cyclic [of deck3 "handleNext deck3 deckInit" 0] n s1 by simp
  have s3: "currentIndex (handleNext deck3 (handleNext deck3 (handleNext deck3 deckInit))) = 0"
    using deck_navigation_cyclic [of deck3 "handleNext deck3 (handleNext deck3 deckInit)" 0] n s2
    by simp
  have p1: "currentIndex (handlePrev deck3 deckInit) = 2"
    using deck_navigation_cyclic [of deck3 deckInit 0] n i0 by simp
  have p2: "currentIndex (handlePrev deck3 (handlePrev deck3 deckInit)) = 1"
    using deck_navigation_cyclic [of deck3 "handlePrev deck3 deckInit" 0] n p1 by simp
  have pn: "currentIndex (handlePrev deck3 (handleNext deck3 deckInit)) = 0"
    using deck_navigation_cyclic [of deck3 deckInit 0] n i0 by simp
  from n(1) i0 s1 s2 s3 p1 p2 pn show ?thesis by simp
qed

section \<open>Quiz scoring\<close>

lemma scoreLoop_count:
  "scoreLoop answers qs acc
   = acc + length (filter (\<lambda>q. map_of answers (question_id q) = Some (correctAnswerIndex q)) qs)"
  by (induction qs arbitrary: acc) simp_all

lemma calculateScore_count:
  "calculateScore qs answers
   = length (filter (\<lambda>q. map_of answers (question_id q) = Some (correctAnswerIndex q)) qs)"
  by (simp add: calculateScore_def scoreLoop_count)

lemma calculateScore_cong:
  "map_of answers' = map_of answers \<Longrightarrow> calculateScore qs answers' = calculateScore qs answers"
  by (simp add: calculateScore_count)

lemma selectAll_showResults: "showResults (selectAll sels s) = showResults s"
  by (induction sels s rule: selectAll.induct) (simp_all add: handleOptionSelect_def)

text \<open>While the results are hidden, a later click on a question overrides an earlier one.\<close>

lemma selectAll_map_of:
  "\<not> showResults s \<Longrightarrow>
   map_of (userAnswers (selectAll sels s)) = map_of (userAnswers s) ++ map_of (rev sels)"
proof (induction sels s rule: selectAll.induct)
  case (1 s)
  show ?case by simp
next
  case (2 qId optionIdx rest s)
  let ?s' = "handleOptionSelect qId optionIdx s"
  have ns: "\<not> showResults ?s'" using 2(2) by (simp add: handleOptionSelect_def)
  have "map_of (userAnswers ?s') = (map_of (userAnswers s))(qId \<mapsto> optionIdx)"
    using 2(2) by (simp add: handleOptionSelect_def update_conv')
  with 2(1) [OF ns] show ?case
    by (simp add: map_add_upd_left fun_eq_iff map_add_def split: option.splits)
qed

lemma selectAll_perm:
  assumes "distinct (map fst sels)" and "mset sels' = mset sels"
  shows "map_of (userAnswers (selectAll sels' quizInit))
         = map_of (userAnswers (selectAll sels quizInit))"
proof -
  have d': "distinct (map fst sels')"
    using assms by (metis mset_map mset_eq_imp_distinct_iff)
  have s: "set sels' = set sels" using assms(2) by (rule mset_eq_setD)
  have "map_of (rev sels') = map_of (rev sels)"
    using assms(1) d' s by (intro map_of_inject_set [THEN iffD2]) (simp_all add: rev_map [symmetric])
  then show ?thesis by (simp add: selectAll_map_of quizInit_def)
qed

text \<open>
  Claim C5. For every quiz and every answer mapping, \<open>calculateScore\<close> is the number of
  questions whose recorded answer is their \<open>correctAnswerIndex\<close>. The score depends on the
  mapping alone, and two click histories that answer each question once and differ only
  in their order give the same score.
\<close>

theorem score_counts:
  "calculateScore questions answers
     = length (filter (\<lambda>q. map_of answers (question_id q) = Some (correctAnswerIndex q)) questions)
   \<and> (map_of answers' = map_of answers \<longrightarrow>
        calculateScore questions answers' = calculateScore questions answers)
   \<and> (distinct (map fst sels) \<and> mset sels' = mset sels \<longrightarrow>
        calculateScore questions (userAnswers (selectAll sels' quizInit))
        = calculateScore questions (userAnswers (selectAll sels quizInit)))"
  using calculateScore_count calculateScore_cong selectAll_perm by blast

text \<open>Three questions answered in two different orders: two answers are right either way.\<close>

theorem score_counts_witness:
  "distinct (map fst clicks3) \<and> mset clicks3_reordered = mset clicks3
   \<and> map_of (userAnswers (selectAll clicks3_reordered quizInit))
       = map_of (userAnswers (selectAll clicks3 quizInit))
   \<and> calculateScore quiz3 (userAnswers (selectAll clicks3 quizInit)) = 2
   \<and> calculateScore quiz3 (userAnswers (selectAll clicks3_reordered quizInit)) = 2"
proof -
  have d: "distinct (map fst clicks3)" by (simp add: clicks3_def)
  have m: "mset clicks3_reordered = mset clicks3"
    by (simp add: clicks3_def clicks3_reordered_def add_mset_commute)
  have v: "calculateScore quiz3 (userAnswers (selectAll clicks3 quizInit)) = 2"
    by (simp add: calculateScore_def quiz3_def clicks3_def quizInit_def sampleQuestion_def
        handleOptionSelect_def)
  have e: "map_of (userAnswers (selectAll clicks3_reordered quizInit))
           = map_of (userAnswers (selectAll clicks3 quizInit))"
    using d m by (rule selectAll_perm)
  from score_counts [of quiz3 "userAnswers (selectAll clicks3 quizInit)"
      "userAnswers (selectAll clicks3_reordered quizInit)" clicks3 clicks3_reordered] d m e v
  show ?thesis by simp
qed

section \<open>Performance bands\<close>





section \<open>Quiz submission\<close>

lemma selectAll_keys:
  "\<not> showResults s \<Longrightarrow>
   fst ` set (userAnswers (selectAll sels s)) = fst ` set (userAnswers s) \<union> fst ` set sels"
proof (induction sels s rule: selectAll.induct)
  case (1 s)
  show ?case by simp
next
  case (2 qId optionIdx rest s)
  let ?s' = "handleOptionSelect qId optionIdx s"
  have ns: "\<not> showResults ?s'" using 2(2) by (simp add: handleOptionSelect_def)
  have "fst ` set (userAnswers ?s') = insert qId (fst ` set (userAnswers s))"
    using 2(2)
    by (simp add: handleOptionSelect_def dom_update [unfolded dom_map_of_conv_image_fst]
        del: set_map image_set)
  with 2(1) [OF ns] show ?case by auto
qed

lemma selectAll_distinct:
  "\<not> showResults s \<Longrightarrow> distinct (map fst (userAnswers s)) \<Longrightarrow>
   distinct (map fst (userAnswers (selectAll sels s)))"
proof (induction sels s rule: selectAll.induct)
  case (1 s)
  then show ?case by simp
next
  case (2 qId optionIdx rest s)
  then show ?case by (simp add: handleOptionSelect_def distinct_update)
qed

lemma submit_iff_all_answered:
  assumes dq: "distinct (map question_id questions)"
      and da: "distinct (map fst (userAnswers s))"
      and sub: "fst ` set (userAnswers s) \<subseteq> question_id ` set questions"
  shows "submitEnabled questions s \<longleftrightarrow> (\<forall>q \<in> set questions. answered s q)"
proof -
  let ?K = "fst ` set (userAnswers s)" and ?I = "question_id ` set questions"
  have cK: "card ?K = length (userAnswers s)"
    using da by (metis distinct_card length_map set_map)
  have cI: "card ?I = length questions"
    using dq by (metis distinct_card length_map set_map)
  have ans: "answered s q \<longleftrightarrow> question_id q \<in> ?K" for q
    by (simp add: answered_def map_of_eq_None_iff)
  have "submitEnabled questions s \<longleftrightarrow> card ?I \<le> card ?K"
    by (simp add: submitEnabled_def cK cI not_less)
  also have "\<dots> \<longleftrightarrow> ?K = ?I"
  proof
    assume "card ?I \<le> card ?K"
    with sub show "?K = ?I" by (simp add: card_seteq)
  qed simp
  also have "\<dots> \<longleftrightarrow> (\<forall>q \<in> set questions. answered s q)"
    using sub by (auto simp: ans)
  finally show ?thesis .
qed

text \<open>
  Claim C7 as stated fails when two questions carry the same id: one click answers both,
  \<open>userAnswers\<close> has one key for two questions, and the button stays disabled although
  every question has a recorded answer.
\<close>

theorem submit_same_id_counterexample:
  "answered (selectAll [(1, 0)] quizInit) (sampleQuestion 1 0)
 \<and> answered (selectAll [(1, 0)] quizInit) (sampleQuestion 1 3)
 \<and> quizSameId = [sampleQuestion 1 0, sampleQuestion 1 3]
 \<and> \<not> submitEnabled quizSameId (selectAll [(1, 0)] quizInit)"
  by (simp add: answered_def quizInit_def handleOptionSelect_def sampleQuestion_def
      quizSameId_def submitEnabled_def)

text \<open>
  Claim C7, amended. For a quiz whose question ids are pairwise distinct, after any
  history of clicks on options of its questions, starting from the initial state of the
  component, the submit button is enabled if and only if every question has a recorded
  answer.
\<close>

theorem submit_enabled_iff:
  assumes "distinct (map question_id questions)"
      and "fst ` set sels \<subseteq> question_id ` set questions"
  shows "submitEnabled questions (selectAll sels quizInit)
         \<longleftrightarrow> (\<forall>q \<in> set questions. answered (selectAll sels quizInit) q)"
proof (rule submit_iff_all_answered [OF assms(1)])
  show "distinct (map fst (userAnswers (selectAll sels quizInit)))"
    by (rule selectAll_distinct) (simp_all add: quizInit_def)
  show "fst ` set (userAnswers (selectAll sels quizInit)) \<subseteq> question_id ` set questions"
    using assms(2) by (simp add: selectAll_keys quizInit_def)
qed

text \<open>
  Ten questions numbered 1 to 10: with nine of them answered the button is disabled, and
  the answer to the tenth enables it.
\<close>

theorem submit_enabled_iff_witness:
  "distinct (map question_id quiz10)
 \<and> fst ` set clicks9 \<subseteq> question_id ` set quiz10
 \<and> fst ` set (clicks9 @ [(10, 2)]) \<subseteq> question_id ` set quiz10
 \<and> \<not> answered (selectAll clicks9 quizInit) (sampleQuestion 10 1)
 \<and> \<not> submitEnabled quiz10 (selectAll clicks9 quizInit)
 \<and> submitEnabled quiz10 (selectAll (clicks9 @ [(10, 2)]) quizInit)
 \<and> list_all (answered (selectAll (clicks9 @ [(10, 2)]) quizInit)) quiz10"
proof -
  have d: "distinct (map question_id quiz10)"
    by (simp add: quiz10_def sampleQuestion_def)
  have k9: "fst ` set clicks9 \<subseteq> question_id ` set quiz10"
    by (simp add: quiz10_def sampleQuestion_def clicks9_def)
  have k10: "fst ` set (clicks9 @ [(10, 2)]) \<subseteq> question_id ` set quiz10"
    by (simp add: quiz10_def sampleQuestion_def clicks9_def)
  have a9: "\<not> answered (selectAll clicks9 quizInit) (sampleQuestion 10 1)"
    by (simp add: answered_def clicks9_def quizInit_def handleOptionSelect_def
        sampleQuestion_def)
  have e10: "submitEnabled quiz10 (selectAll (clicks9 @ [(10, 2)]) quizInit)"
    by (simp add: submitEnabled_def clicks9_def quizInit_def handleOptionSelect_def
        quiz10_def)
  have in10: "sampleQuestion 10 1 \<in> set quiz10" by (simp add: quiz10_def)
  from submit_enabled_iff [OF d k9] a9 in10
  have n9: "\<not> submitEnabled quiz10 (selectAll clicks9 quizInit)" by blast
  from submit_enabled_iff [OF d k10] e10
  have all10: "\<forall>q \<in> set quiz10. answered (selectAll (clicks9 @ [(10, 2)]) quizInit) q" by blast
  from all10 have l10: "list_all (answered (selectAll (clicks9 @ [(10, 2)]) quizInit)) quiz10"
    by (simp add: list_all_iff)
  from d k9 k10 a9 n9 e10 l10 show ?thesis by blast
qed

section \<open>Video-id extraction\<close>

lemma backtrack_sound:
  "backtrack k url = Some rest \<Longrightarrow> \<exists>p \<le> k. firstAlt markers (drop p url) = Some rest"
proof (induction k)
  case 0
  then show ?case by simp
next
  case (Suc k)
  show ?case
  proof (cases "firstAlt markers (drop (Suc k) url)")
    case None
    with Suc.prems have "backtrack k url = Some rest" by simp
    from Suc.IH [OF this] show ?thesis using le_Suc_eq by blast
  next
    case (Some r)
    with Suc.prems have "r = rest" by simp
    with Some show ?thesis by blast
  qed
qed

lemma prefix_no_terminator:
  assumes "p \<le> length (takeWhile (\<lambda>c. \<not> lineTerminator c) url)"
  shows "p \<le> length url \<and> list_all (\<lambda>c. \<not> lineTerminator c) (take p url)"
proof -
  let ?w = "takeWhile (\<lambda>c. \<not> lineTerminator c) url"
  have len: "length ?w \<le> length url" by (rule length_takeWhile_le)
  have "take p url = take p ?w"
    using assms by (metis takeWhile_dropWhile_id take_append diff_is_0_eq take_0 append_Nil2)
  moreover have "list_all (\<lambda>c. \<not> lineTerminator c) (take p ?w)"
    unfolding list_all_iff using set_takeWhileD in_set_takeD by metis
  ultimately show ?thesis using assms len by simp
qed

lemma extractVideoId_Some:
  assumes "extractVideoId url = Some v"
  shows "length v = 11 \<and> (\<exists>p rest. recognised url p rest \<and> v = idChars rest)"
proof -
  let ?k = "length (takeWhile (\<lambda>c. \<not> lineTerminator c) url)"
  from assms obtain rest where bt: "backtrack ?k url = Some rest"
    and v: "v = idChars rest" and len: "length (idChars rest) = 11"
    by (auto simp: extractVideoId_def split: option.splits if_splits)
  from backtrack_sound [OF bt] obtain p where "p \<le> ?k"
    and alt: "firstAlt markers (drop p url) = Some rest" by blast
  with prefix_no_terminator [of p url] have "recognised url p rest"
    by (simp add: recognised_def)
  with v len show ?thesis by blast
qed

lemma extractVideoId_short:
  assumes "\<forall>p rest. recognised url p rest \<longrightarrow> length (idChars rest) < 11"
  shows "extractVideoId url = None"
proof (cases "extractVideoId url")
  case None
  then show ?thesis .
next
  case (Some v)
  from extractVideoId_Some [OF Some] assms show ?thesis by force
qed

lemma backtrack_last:
  assumes "p \<le> k" and "firstAlt markers (drop p url) = Some rest"
      and "\<forall>p'. p < p' \<and> p' \<le> k \<longrightarrow> firstAlt markers (drop p' url) = None"
  shows "backtrack k url = Some rest"
  using assms
proof (induction k)
  case 0
  then show ?case by simp
next
  case (Suc k)
  show ?case
  proof (cases "p = Suc k")
    case True
    with Suc.prems(2) show ?thesis by simp
  next
    case False
    with Suc.prems(1) have le: "p \<le> k" by simp
    then have none: "firstAlt markers (drop (Suc k) url) = None"
      using Suc.prems(3) by simp
    have "backtrack k url = Some rest"
      using le Suc.prems(2) Suc.prems(3) by (intro Suc.IH) simp_all
    with none show ?thesis by simp
  qed
qed

lemma reach_within_first_line:
  assumes "p \<le> length url" and "list_all (\<lambda>c. \<not> lineTerminator c) (take p url)"
  shows "p \<le> length (takeWhile (\<lambda>c. \<not> lineTerminator c) url)"
proof -
  have "takeWhile (\<lambda>c. \<not> lineTerminator c) (take p url @ drop p url)
        = take p url @ takeWhile (\<lambda>c. \<not> lineTerminator c) (drop p url)"
    using assms(2) by (intro takeWhile_append2) (simp add: list_all_iff)
  then have "length (takeWhile (\<lambda>c. \<not> lineTerminator c) url)
             = length (take p url) + length (takeWhile (\<lambda>c. \<not> lineTerminator c) (drop p url))"
    by simp
  with assms(1) show ?thesis by simp
qed

lemma extractVideoId_last_marker:
  assumes r: "recognised url p rest"
      and last: "\<forall>p' rest'. recognised url p' rest' \<longrightarrow> p' \<le> p"
  shows "extractVideoId url = (if length (idChars rest) = 11 then Some (idChars rest) else None)"
proof -
  let ?k = "length (takeWhile (\<lambda>c. \<not> lineTerminator c) url)"
  from r have pk: "p \<le> ?k" and alt: "firstAlt markers (drop p url) = Some rest"
    by (simp_all add: recognised_def reach_within_first_line)
  have "\<forall>p'. p < p' \<and> p' \<le> ?k \<longrightarrow> firstAlt markers (drop p' url) = None"
  proof (intro allI impI)
    fix p'
    assume a: "p < p' \<and> p' \<le> ?k"
    show "firstAlt markers (drop p' url) = None"
    proof (cases "firstAlt markers (drop p' url)")
      case None
      then show ?thesis .
    next
      case (Some rest')
      with a prefix_no_terminator [of p' url] have "recognised url p' rest'"
        by (simp add: recognised_def)
      with last a show ?thesis by force
    qed
  qed
  from backtrack_last [OF pk alt this] show ?thesis
    by (simp add: extractVideoId_def)
qed

lemma matchSeq_full_append:
  "matchSeq as mk = Some [] \<Longrightarrow> matchSeq as (mk @ rest) = Some rest"
  by (induction as mk rule: matchSeq.induct) (simp_all split: if_splits)

lemma matchSeq_Lit_head:
  "matchSeq (Lit a # as) mk = Some r \<Longrightarrow> \<exists>mk'. mk = a # mk'"
  by (cases mk) (simp_all split: if_splits)

lemma knownMarker_firstAlt:
  assumes "knownMarker mk"
  shows "firstAlt markers (mk @ rest) = Some rest"
proof -
  from assms obtain alt where mem: "alt \<in> set markers" and m: "matchSeq alt mk = Some []"
    unfolding knownMarker_def list_ex_iff by blast
  from matchSeq_full_append [OF m] have full: "matchSeq alt (mk @ rest) = Some rest" .
  from mem consider
      "alt = lits ''youtu'' @ [AnyChar] @ lits ''be/''" | "alt = lits ''v/''"
    | "alt = lits ''u/'' @ [WordChar] @ lits ''/''" | "alt = lits ''embed/''"
    | "alt = lits ''watch?v=''" | "alt = lits ''&v=''"
    unfolding markers_def by auto
  then show ?thesis
  proof cases
    case 1
    with m obtain mk' where "mk = CHR ''y'' # mk'"
      using matchSeq_Lit_head [of "CHR ''y''" _ mk "[]"] by (auto simp: lits_def)
    with full 1 show ?thesis by (simp add: markers_def lits_def)
  next
    case 2
    with m obtain mk' where "mk = CHR ''v'' # mk'"
      using matchSeq_Lit_head [of "CHR ''v''" _ mk "[]"] by (auto simp: lits_def)
    with full 2 show ?thesis by (simp add: markers_def lits_def)
  next
    case 3
    with m obtain mk' where "mk = CHR ''u'' # mk'"
      using matchSeq_Lit_head [of "CHR ''u''" _ mk "[]"] by (auto simp: lits_def)
    with full 3 show ?thesis by (simp add: markers_def lits_def)
  next
    case 4
    with m obtain mk' where "mk = CHR ''e'' # mk'"
      using matchSeq_Lit_head [of "CHR ''e''" _ mk "[]"] by (auto simp: lits_def)
    with full 4 show ?thesis by (simp add: markers_def lits_def)
  next
    case 5
    with m obtain mk' where "mk = CHR ''w'' # mk'"
      using matchSeq_Lit_head [of "CHR ''w''" _ mk "[]"] by (auto simp: lits_def)
    with full 5 show ?thesis by (simp add: markers_def lits_def)
  next
    case 6
    with m obtain mk' where "mk = CHR ''&'' # mk'"
      using matchSeq_Lit_head [of "CHR ''&''" _ mk "[]"] by (auto simp: lits_def)
    with full 6 show ?thesis by (simp add: markers_def lits_def)
  qed
qed

lemma idChars_exact:
  assumes "list_all idChar vid" and "suf = [] \<or> \<not> idChar (hd suf)"
  shows "idChars (vid @ suf) = vid"
proof -
  have "takeWhile idChar (vid @ suf) = vid @ takeWhile idChar suf"
    using assms(1) by (intro takeWhile_append2) (simp add: list_all_iff)
  moreover have "takeWhile idChar suf = []"
    using assms(2) by (cases suf) simp_all
  ultimately show ?thesis by (simp add: idChars_def)
qed

lemma extractVideoId_shape:
  assumes pre: "list_all (\<lambda>c. \<not> lineTerminator c) pre"
      and mk: "knownMarker mk"
      and len: "length vid = 11"
      and vid: "list_all idChar vid"
      and suf: "suf = [] \<or> \<not> idChar (hd suf)"
      and last: "\<forall>p rest. recognised (pre @ mk @ vid @ suf) p rest \<longrightarrow> p \<le> length pre"
  shows "extractVideoId (pre @ mk @ vid @ suf) = Some vid"
proof -
  let ?url = "pre @ mk @ vid @ suf"
  have "recognised ?url (length pre) (vid @ suf)"
    using pre knownMarker_firstAlt [OF mk, of "vid @ suf"] by (simp add: recognised_def)
  from extractVideoId_last_marker [OF this last] idChars_exact [OF vid suf] len
  show ?thesis by simp
qed

lemma extractVideoId_no_marker:
  assumes "\<forall>p rest. \<not> recognised url p rest"
  shows "extractVideoId url = None"
  using extractVideoId_short [of url] assms by simp

lemma recognised_last_exists:
  assumes "recognised url p rest"
  shows "\<exists>q after. recognised url q after \<and> (\<forall>p' rest'. recognised url p' rest' \<longrightarrow> p' \<le> q)"
proof -
  let ?S = "{p. \<exists>rest. recognised url p rest}"
  have fin: "finite ?S"
    by (rule finite_subset [of _ "{..length url}"]) (auto simp: recognised_def)
  have ne: "?S \<noteq> {}" using assms by blast
  from Max_in [OF fin ne] obtain after where "recognised url (Max ?S) after" by blast
  moreover have "\<forall>p' rest'. recognised url p' rest' \<longrightarrow> p' \<le> Max ?S"
    using Max_ge [OF fin] by blast
  ultimately show ?thesis by blast
qed

text \<open>
  Claim C10 as stated fails on both sides. The pattern is greedy and settles on the last
  recognised marker. So a link with a short run after an earlier marker is accepted when
  the last marker is followed by 11 id characters, and a link of the \<open>watch?v=\<close> form with a
  proper id is rejected when a marker occurs again in a later parameter.
\<close>

theorem extractVideoId_counterexample:
  "recognised ''https://youtu.be/abc&v=dQw4w9WgXcQ'' 8 ''abc&v=dQw4w9WgXcQ''
 \<and> idChars ''abc&v=dQw4w9WgXcQ'' = ''abc''
 \<and> extractVideoId ''https://youtu.be/abc&v=dQw4w9WgXcQ'' = Some ''dQw4w9WgXcQ''
 \<and> recognised ''https://www.youtube.com/watch?v=dQw4w9WgXcQ&list=PLv/abc'' 24
       ''dQw4w9WgXcQ&list=PLv/abc''
 \<and> idChars ''dQw4w9WgXcQ&list=PLv/abc'' = ''dQw4w9WgXcQ''
 \<and> extractVideoId ''https://www.youtube.com/watch?v=dQw4w9WgXcQ&list=PLv/abc'' = None"
  by code_simp

text \<open>
  Claim C10, amended. \<open>extractVideoId\<close> yields \<open>dQw4w9WgXcQ\<close> for the two example links.
  In general, for a link made of a prefix without line terminator, one of the markers,
  11 characters other than #, & and ?, and then the end of the link or one of #, & and
  ?, it yields these 11 characters, provided no marker is recognised later in the link.
  The result is always decided by the last recognised marker: it is the run of id
  characters after that marker if the run has exactly 11 characters, and the link is
  rejected otherwise, in particular when fewer than 11 id characters follow that marker,
  when fewer than 11 follow every recognised marker, and when there is no marker.
\<close>

theorem extractVideoId_by_last_marker:
  "extractVideoId ''https://www.youtube.com/watch?v=dQw4w9WgXcQ'' = Some ''dQw4w9WgXcQ''
 \<and> extractVideoId ''https://youtu.be/dQw4w9WgXcQ'' = Some ''dQw4w9WgXcQ''
 \<and> (list_all (\<lambda>c. \<not> lineTerminator c) pre \<and> knownMarker mk \<and> length vid = 11
      \<and> list_all idChar vid \<and> (suf = [] \<or> \<not> idChar (hd suf))
      \<and> (\<forall>p rest. recognised (pre @ mk @ vid @ suf) p rest \<longrightarrow> p \<le> length pre)
      \<longrightarrow> extractVideoId (pre @ mk @ vid @ suf) = Some vid)
 \<and> (recognised url q after \<and> (\<forall>p' rest'. recognised url p' rest' \<longrightarrow> p' \<le> q)
      \<longrightarrow> extractVideoId url
          = (if length (idChars after) = 11 then Some (idChars after) else None))
 \<and> (recognised url q after \<and> (\<forall>p' rest'. recognised url p' rest' \<longrightarrow> p' \<le> q)
      \<and> length (idChars after) < 11 \<longrightarrow> extractVideoId url = None)
 \<and> ((\<forall>p rest. recognised url p rest \<longrightarrow> length (idChars rest) < 11)
      \<longrightarrow> extractVideoId url = None)
 \<and> ((\<forall>p rest. \<not> recognised url p rest) \<longrightarrow> extractVideoId url = None)
 \<and> (extractVideoId url = Some v
      \<longrightarrow> length v = 11 \<and> (\<exists>p rest. recognised url p rest \<and> v = idChars rest
            \<and> (\<forall>p' rest'. recognised url p' rest' \<longrightarrow> p' \<le> p)))"
proof -
  have a: "extractVideoId ''https://www.youtube.com/watch?v=dQw4w9WgXcQ'' = Some ''dQw4w9WgXcQ''"
    by code_simp
  have b: "extractVideoId ''https://youtu.be/dQw4w9WgXcQ'' = Some ''dQw4w9WgXcQ''"
    by code_simp
  have c: "list_all (\<lambda>c. \<not> lineTerminator c) pre \<and> knownMarker mk \<and> length vid = 11
      \<and> list_all idChar vid \<and> (suf = [] \<or> \<not> idChar (hd suf))
      \<and> (\<forall>p rest. recognised (pre @ mk @ vid @ suf) p rest \<longrightarrow> p \<le> length pre)
      \<longrightarrow> extractVideoId (pre @ mk @ vid @ suf) = Some vid"
    using extractVideoId_shape [of pre mk vid suf] by blast
  have d: "recognised url q after \<and> (\<forall>p' rest'. recognised url p' rest' \<longrightarrow> p' \<le> q)
      \<longrightarrow> extractVideoId url
          = (if length (idChars after) = 11 then Some (idChars after) else None)"
    using extractVideoId_last_marker [of url q after] by blast
  have e: "recognised url q after \<and> (\<forall>p' rest'. recognised url p' rest' \<longrightarrow> p' \<le> q)
      \<and> length (idChars after) < 11 \<longrightarrow> extractVideoId url = None"
    using extractVideoId_last_marker [of url q after] by simp
  have f: "(\<forall>p rest. recognised url p rest \<longrightarrow> length (idChars rest) < 11)
      \<longrightarrow> extractVideoId url = None"
    using extractVideoId_short [of url] by blast
  have g: "(\<forall>p rest. \<not> recognised url p rest) \<longrightarrow> extractVideoId url = None"
    using extractVideoId_no_marker [of url] by blast
  have h: "extractVideoId url = Some v
      \<longrightarrow> length v = 11 \<and> (\<exists>p rest. recognised url p rest \<and> v = idChars rest
            \<and> (\<forall>p' rest'. recognised url p' rest' \<longrightarrow> p' \<le> p))"
  proof
    assume sv: "extractVideoId url = Some v"
    from extractVideoId_Some [OF sv] obtain p0 rest0 where "recognised url p0 rest0"
      and lv: "length v = 11" by blast
    from recognised_last_exists [OF this(1)] obtain p rest where r: "recognised url p rest"
      and l: "\<forall>p' rest'. recognised url p' rest' \<longrightarrow> p' \<le> p" by blast
    from extractVideoId_last_marker [OF r l] sv have "v = idChars rest"
      by (simp split: if_splits)
    with r l lv show "length v = 11 \<and> (\<exists>p rest. recognised url p rest \<and> v = idChars rest
            \<and> (\<forall>p' rest'. recognised url p' rest' \<longrightarrow> p' \<le> p))" by blast
  qed
  from a b c d e f g h show ?thesis by blast
qed

text \<open>
  A \<open>watch?v=\<close> link with a time parameter, the link \<open>https://youtu.be/short\<close> whose only
  marker is followed by five characters, and a link without marker.
\<close>

theorem extractVideoId_by_last_marker_witness:
  "knownMarker ''watch?v=''
 \<and> recognised ''https://www.youtube.com/watch?v=dQw4w9WgXcQ&t=10s'' 24 ''dQw4w9WgXcQ&t=10s''
 \<and> extractVideoId ''https://www.youtube.com/watch?v=dQw4w9WgXcQ&t=10s'' = Some ''dQw4w9WgXcQ''
 \<and> recognised ''https://youtu.be/short'' 8 ''short''
 \<and> extractVideoId ''https://youtu.be/short'' = None
 \<and> extractVideoId ''https://example.org/'' = None"
proof -
  let ?pre = "''https://www.youtube.com/''" and ?mk = "''watch?v=''"
  let ?vid = "''dQw4w9WgXcQ''" and ?suf = "''&t=10s''"
  let ?long = "''https://www.youtube.com/watch?v=dQw4w9WgXcQ&t=10s''"
  let ?short = "''https://youtu.be/short''"
  let ?none = "''https://example.org/''"
  have long: "?pre @ ?mk @ ?vid @ ?suf = ?long" by simp
  have km: "knownMarker ?mk" by code_simp
  have pre: "list_all (\<lambda>c. \<not> lineTerminator c) ?pre" by code_simp
  have vid: "length ?vid = 11" "list_all idChar ?vid" "?suf = [] \<or> \<not> idChar (hd ?suf)"
    by (simp_all add: idChar_def)
  have enum_long: "list_all (\<lambda>p. case firstAlt markers (drop p ?long) of
                      None \<Rightarrow> True | Some rest \<Rightarrow> p \<le> 24) [0..<50]"
    by code_simp
  have last_long: "\<forall>p rest. recognised ?long p rest \<longrightarrow> p \<le> length ?pre"
  proof (intro allI impI)
    fix p rest
    assume r: "recognised ?long p rest"
    then have "p \<in> set [0..<50]" by (simp add: recognised_def)
    with enum_long have "case firstAlt markers (drop p ?long) of
                      None \<Rightarrow> True | Some rest \<Rightarrow> p \<le> 24"
      unfolding list_all_iff by blast
    with r show "p \<le> length ?pre" by (simp add: recognised_def)
  qed
  have r_long: "recognised ?long 24 ''dQw4w9WgXcQ&t=10s''" by code_simp
  have enum_short: "list_all (\<lambda>p. case firstAlt markers (drop p ?short) of
                  None \<Rightarrow> True | Some rest \<Rightarrow> length (idChars rest) < 11) [0..<23]"
    by code_simp
  have h_short: "\<forall>p rest. recognised ?short p rest \<longrightarrow> length (idChars rest) < 11"
  proof (intro allI impI)
    fix p rest
    assume r: "recognised ?short p rest"
    then have "p \<in> set [0..<23]" by (simp add: recognised_def)
    with enum_short have "case firstAlt markers (drop p ?short) of
                  None \<Rightarrow> True | Some rest \<Rightarrow> length (idChars rest) < 11"
      unfolding list_all_iff by blast
    with r show "length (idChars rest) < 11" by (simp add: recognised_def)
  qed
  have r_short: "recognised ?short 8 ''short''" by code_simp
  have enum_none: "list_all (\<lambda>p. firstAlt markers (drop p ?none) = None) [0..<21]"
    by code_simp
  have h_none: "\<forall>p rest. \<not> recognised ?none p rest"
  proof (intro allI notI)
    fix p rest
    assume r: "recognised ?none p rest"
    then have "p \<in> set [0..<21]" by (simp add: recognised_def)
    with enum_none have "firstAlt markers (drop p ?none) = None"
      unfolding list_all_iff by blast
    with r show False by (simp add: recognised_def)
  qed
  have A: "extractVideoId ?long = Some ?vid"
    using extractVideoId_by_last_marker [of ?pre ?mk ?vid ?suf] pre km vid last_long
    unfolding long by blast
  have B: "extractVideoId ?short = None"
    using extractVideoId_by_last_marker [of _ _ _ _ ?short] h_short by blast
  have C: "extractVideoId ?none = None"
    using extractVideoId_by_last_marker [of _ _ _ _ ?none] h_none by blast
  from km r_long A r_short B C show ?thesis by blast
qed

section \<open>The generation fan-out\<close>

lemma promiseAll_Inr:
  assumes "promiseAll r = Inr a"
  shows "generateSummary (summaryReply r) = Inr (art_summary a)
       \<and> generateChapters (chaptersReply r) = Inr (art_chapters a)
       \<and> extractFormulas (formulasReply r) = Inr (art_formulas a)
       \<and> generateExamStrategy (strategyReply r) = Inr (art_strategy a)
       \<and> generateQuiz (quizReply r) = Inr (art_quiz a)
       \<and> generateFlashcards (flashcardsReply r) = Inr (art_flashcards a)
       \<and> generateCheatSheet (cheatSheetReply r) = Inr (art_cheatSheet a)"
  using assms unfolding promiseAll_def bindE_def
  by (auto split: sum.splits)

lemma promiseAll_Inl:
  assumes "promiseAll r = Inl e"
  shows "isl (generateSummary (summaryReply r)) \<or> isl (generateChapters (chaptersReply r))
       \<or> isl (extractFormulas (formulasReply r)) \<or> isl (generateExamStrategy (strategyReply r))
       \<or> isl (generateQuiz (quizReply r)) \<or> isl (generateFlashcards (flashcardsReply r))
       \<or> isl (generateCheatSheet (cheatSheetReply r))"
  using assms unfolding promiseAll_def bindE_def
  by (auto split: sum.splits)

lemma catching_generators:
  "\<not> isl (generateChapters r1)" "\<not> isl (extractFormulas r2)" "\<not> isl (generateExamStrategy r3)"
  "\<not> isl (generateQuiz r4)" "\<not> isl (generateFlashcards r5)" "\<not> isl (generateCheatSheet r6)"
  by (simp_all add: generateChapters_def extractFormulas_def generateExamStrategy_def
      generateQuiz_def generateFlashcards_def generateCheatSheet_def
      split: json_response.splits text_response.splits)

lemma promiseAll_isl: "isl (promiseAll r) \<longleftrightarrow> summaryReply r = TextRejects"
proof (cases "summaryReply r")
  case TextRejects
  then show ?thesis by (simp add: promiseAll_def bindE_def generateSummary_def)
next
  case (TextResponse t)
  have "\<not> isl (promiseAll r)"
  proof
    assume "isl (promiseAll r)"
    then obtain e where "promiseAll r = Inl e" by (cases "promiseAll r") simp_all
    from promiseAll_Inl [OF this] show False
      using catching_generators TextResponse by (simp add: generateSummary_def)
  qed
  with TextResponse show ?thesis by simp
qed

lemma handleStartProcessing_view:
  "view (handleStartProcessing replies now transcriptText lectureTitle exam frame vid prev)
   = (if isl (promiseAll replies) then UPLOAD else DASHBOARD)"
  by (cases "promiseAll replies") (simp_all add: handleStartProcessing_def finishProcessing_def)

text \<open>
  Claim C1 as stated fails in one respect. The handler records the submitted lecture,
  exam type and time frame before the requests are issued, and the failure branch keeps
  them: after a failed run the state differs from the state before the submission by
  more than the error annotation.
\<close>

theorem fanout_failure_counterexample:
  "view uploadState = UPLOAD \<and> lecture uploadState = None
 \<and> examType uploadState = UNIVERSITY \<and> timeFrame uploadState = ONE_WEEK
 \<and> view (handleStartProcessing (okReplies\<lparr>summaryReply := TextRejects\<rparr>) 1 ''Welcome''
          ''Lecture'' SCHOOL ONE_DAY None uploadState) = UPLOAD
 \<and> lecture (handleStartProcessing (okReplies\<lparr>summaryReply := TextRejects\<rparr>) 1 ''Welcome''
          ''Lecture'' SCHOOL ONE_DAY None uploadState)
     = Some \<lparr>title = ''Lecture'', transcript = ''Welcome'', videoUrl = None, videoId = None\<rparr>
 \<and> examType (handleStartProcessing (okReplies\<lparr>summaryReply := TextRejects\<rparr>) 1 ''Welcome''
          ''Lecture'' SCHOOL ONE_DAY None uploadState) = SCHOOL
 \<and> timeFrame (handleStartProcessing (okReplies\<lparr>summaryReply := TextRejects\<rparr>) 1 ''Welcome''
          ''Lecture'' SCHOOL ONE_DAY None uploadState) = ONE_DAY
 \<and> handleStartProcessing (okReplies\<lparr>summaryReply := TextRejects\<rparr>) 1 ''Welcome''
          ''Lecture'' SCHOOL ONE_DAY None uploadState
     \<noteq> uploadState\<lparr>error := Some processingError\<rparr>"
  by (simp add: handleStartProcessing_def finishProcessing_def startProcessing_def
      promiseAll_def bindE_def generateSummary_def uploadState_def handleLogin_def
      initialAppState_def)

text \<open>
  Claim C1, amended. For every submission and every outcome of the seven requests,
  \<open>handleStartProcessing\<close> ends in one of two ways. Either all seven generators resolve:
  the view is Dashboard and the seven fields of the state hold exactly the seven
  results, with the chat history seeded by the welcome message. Or one of them rejects:
  the state is the one recorded at submission (with the submitted lecture, exam type and
  time frame) with only the view set back to Upload and the error message attached, and
  the seven fields, the chat history and the user are those from before the submission.
  No state holds some of the new results only.
\<close>

theorem fanout_all_or_nothing:
  "let s' = handleStartProcessing replies now transcriptText lectureTitle exam frame vid prev in
   (\<exists>sm ch fo st qz fc cs.
       generateSummary (summaryReply replies) = Inr sm
     \<and> generateChapters (chaptersReply replies) = Inr ch
     \<and> extractFormulas (formulasReply replies) = Inr fo
     \<and> generateExamStrategy (strategyReply replies) = Inr st
     \<and> generateQuiz (quizReply replies) = Inr qz
     \<and> generateFlashcards (flashcardsReply replies) = Inr fc
     \<and> generateCheatSheet (cheatSheetReply replies) = Inr cs
     \<and> view s' = DASHBOARD \<and> summary s' = sm \<and> chapters s' = ch \<and> formulas s' = fo
     \<and> strategy s' = Some st \<and> quiz s' = qz \<and> flashcards s' = fc \<and> cheatSheet s' = cs
     \<and> chatHistory s' = [welcomeMessage now])
 \<or> ((isl (generateSummary (summaryReply replies)) \<or> isl (generateChapters (chaptersReply replies))
      \<or> isl (extractFormulas (formulasReply replies))
      \<or> isl (generateExamStrategy (strategyReply replies))
      \<or> isl (generateQuiz (quizReply replies)) \<or> isl (generateFlashcards (flashcardsReply replies))
      \<or> isl (generateCheatSheet (cheatSheetReply replies)))
     \<and> s' = (startProcessing transcriptText lectureTitle exam frame vid prev)
              \<lparr>view := UPLOAD, error := Some processingError\<rparr>
     \<and> view s' = UPLOAD \<and> error s' = Some processingError
     \<and> summary s' = summary prev \<and> chapters s' = chapters prev \<and> formulas s' = formulas prev
     \<and> strategy s' = strategy prev \<and> quiz s' = quiz prev \<and> flashcards s' = flashcards prev
     \<and> cheatSheet s' = cheatSheet prev \<and> chatHistory s' = chatHistory prev
     \<and> user s' = user prev)"
proof -
  let ?s0 = "startProcessing transcriptText lectureTitle exam frame vid prev"
  let ?s' = "handleStartProcessing replies now transcriptText lectureTitle exam frame vid prev"
  have frame0: "summary ?s0 = summary prev" "chapters ?s0 = chapters prev"
    "formulas ?s0 = formulas prev" "strategy ?s0 = strategy prev" "quiz ?s0 = quiz prev"
    "flashcards ?s0 = flashcards prev" "cheatSheet ?s0 = cheatSheet prev"
    "chatHistory ?s0 = chatHistory prev" "user ?s0 = user prev"
    by (simp_all add: startProcessing_def)
  show ?thesis
  proof (cases "promiseAll replies")
    case (Inr a)
    have eq: "?s' = ?s0\<lparr>view := DASHBOARD, summary := art_summary a, chapters := art_chapters a,
               formulas := art_formulas a, strategy := Some (art_strategy a),
               quiz := art_quiz a, flashcards := art_flashcards a,
               cheatSheet := art_cheatSheet a, chatHistory := [welcomeMessage now]\<rparr>"
      by (simp add: handleStartProcessing_def finishProcessing_def Inr)
    have fields: "view ?s' = DASHBOARD" "summary ?s' = art_summary a"
      "chapters ?s' = art_chapters a" "formulas ?s' = art_formulas a"
      "strategy ?s' = Some (art_strategy a)" "quiz ?s' = art_quiz a"
      "flashcards ?s' = art_flashcards a" "cheatSheet ?s' = art_cheatSheet a"
      "chatHistory ?s' = [welcomeMessage now]"
      unfolding eq by simp_all
    from promiseAll_Inr [OF Inr] fields show ?thesis
      unfolding Let_def by blast
  next
    case (Inl e)
    have eq: "?s' = ?s0\<lparr>view := UPLOAD, error := Some processingError\<rparr>"
      by (simp add: handleStartProcessing_def finishProcessing_def Inl)
    have fields: "view ?s' = UPLOAD" "error ?s' = Some processingError"
      "summary ?s' = summary prev" "chapters ?s' = chapters prev"
      "formulas ?s' = formulas prev" "strategy ?s' = strategy prev" "quiz ?s' = quiz prev"
      "flashcards ?s' = flashcards prev" "cheatSheet ?s' = cheatSheet prev"
      "chatHistory ?s' = chatHistory prev" "user ?s' = user prev"
      unfolding eq using frame0 by simp_all
    from promiseAll_Inl [OF Inl] eq fields show ?thesis
      unfolding Let_def by blast
  qed
qed

text \<open>
  From the upload screen: a run in which all requests succeed, and a run in which the
  summary request rejects while the other six succeed.
\<close>

theorem fanout_all_or_nothing_witness:
  "view dashboardState = DASHBOARD
 \<and> summary dashboardState = ''Overview''
 \<and> quiz dashboardState = [sampleQuestion 1 2]
 \<and> view (handleStartProcessing (okReplies\<lparr>summaryReply := TextRejects\<rparr>) 1 ''Welcome''
           ''Lecture'' SCHOOL ONE_DAY None uploadState) = UPLOAD
 \<and> error (handleStartProcessing (okReplies\<lparr>summaryReply := TextRejects\<rparr>) 1 ''Welcome''
           ''Lecture'' SCHOOL ONE_DAY None uploadState) = Some processingError
 \<and> quiz (handleStartProcessing (okReplies\<lparr>summaryReply := TextRejects\<rparr>) 1 ''Welcome''
           ''Lecture'' SCHOOL ONE_DAY None uploadState) = []
 \<and> chapters (handleStartProcessing (okReplies\<lparr>summaryReply := TextRejects\<rparr>) 1 ''Welcome''
           ''Lecture'' SCHOOL ONE_DAY None uploadState) = []"
proof -
  let ?fail = "okReplies\<lparr>summaryReply := TextRejects\<rparr>"
  let ?s2 = "handleStartProcessing ?fail 1 ''Welcome'' ''Lecture'' SCHOOL ONE_DAY None uploadState"
  have ok: "\<not> isl (generateSummary (summaryReply okReplies))"
    by (simp add: okReplies_def generateSummary_def)
  have v1: "view dashboardState = DASHBOARD"
    using ok by (simp add: dashboardState_def handleStartProcessing_view promiseAll_isl
        okReplies_def)
  have v2: "view ?s2 = UPLOAD"
    by (simp add: handleStartProcessing_view promiseAll_isl)
  have g: "generateSummary (summaryReply okReplies) = Inr ''Overview''"
    "generateQuiz (quizReply okReplies) = Inr [sampleQuestion 1 2]"
    by (simp_all add: okReplies_def generateSummary_def generateQuiz_def orElse_def)
  have u: "quiz uploadState = []" "chapters uploadState = []"
    by (simp_all add: uploadState_def handleLogin_def initialAppState_def)
  from fanout_all_or_nothing [of okReplies 0 "''Welcome''" "''Lecture''" UNIVERSITY ONE_WEEK
      None uploadState] v1 g
  have first: "summary dashboardState = ''Overview''" "quiz dashboardState = [sampleQuestion 1 2]"
    unfolding Let_def dashboardState_def [symmetric] by auto
  from fanout_all_or_nothing [of ?fail 1 "''Welcome''" "''Lecture''" SCHOOL ONE_DAY None
      uploadState] v2
  have second: "error ?s2 = Some processingError" "quiz ?s2 = quiz uploadState"
    "chapters ?s2 = chapters uploadState"
    unfolding Let_def by auto
  from v1 v2 first second u show ?thesis by simp
qed

section \<open>Failure policy of the generators\<close>

text \<open>
  Claim C2 as stated fails for the cheat sheet: \<open>generateCheatSheet\<close> catches the
  rejection and returns a fixed text, and a fan-out in which only the cheat-sheet request
  rejects reaches the dashboard with that text as the cheat sheet.
\<close>

theorem cheat_sheet_failure_counterexample:
  "generateCheatSheet TextRejects = Inr ''Could not generate cheat sheet.''
 \<and> view (handleStartProcessing (okReplies\<lparr>cheatSheetReply := TextRejects\<rparr>) 0 ''Welcome''
          ''Lecture'' UNIVERSITY ONE_WEEK None uploadState) = DASHBOARD
 \<and> cheatSheet (handleStartProcessing (okReplies\<lparr>cheatSheetReply := TextRejects\<rparr>) 0
          ''Welcome'' ''Lecture'' UNIVERSITY ONE_WEEK None uploadState)
     = ''Could not generate cheat sheet.''"
  by (simp add: generateCheatSheet_def handleStartProcessing_def finishProcessing_def
      promiseAll_def bindE_def okReplies_def generateSummary_def generateChapters_def
      extractFormulas_def generateExamStrategy_def generateQuiz_def generateFlashcards_def
      orElse_def)

text \<open>
  Claim C2, amended. When the collaborator fails (the request rejects, or its text does
  not parse), the generators of chapters, formulas, quiz and flashcards return the empty
  list and the strategy generator returns its default strategy; the cheat-sheet
  generator returns the text ``Could not generate cheat sheet.''. None of these six ever
  rejects. The summary generator rejects with ``Could not generate summary.'', and the
  fan-out fails, returning to Upload, exactly when the summary request rejects.
\<close>

theorem generator_failure_policy:
  "generateChapters JsonRejects = Inr [] \<and> generateChapters JsonMalformed = Inr []
 \<and> extractFormulas JsonRejects = Inr [] \<and> extractFormulas JsonMalformed = Inr []
 \<and> generateQuiz JsonRejects = Inr [] \<and> generateQuiz JsonMalformed = Inr []
 \<and> generateFlashcards JsonRejects = Inr [] \<and> generateFlashcards JsonMalformed = Inr []
 \<and> generateExamStrategy JsonRejects = Inr defaultStrategy
 \<and> generateExamStrategy JsonMalformed = Inr defaultStrategy
 \<and> generateCheatSheet TextRejects = Inr ''Could not generate cheat sheet.''
 \<and> generateSummary TextRejects = Inl (Error ''Could not generate summary.'')
 \<and> \<not> isl (generateChapters r1) \<and> \<not> isl (extractFormulas r2)
 \<and> \<not> isl (generateExamStrategy r3) \<and> \<not> isl (generateQuiz r4)
 \<and> \<not> isl (generateFlashcards r5) \<and> \<not> isl (generateCheatSheet r6)
 \<and> (isl (generateSummary r7) \<longleftrightarrow> r7 = TextRejects)
 \<and> (isl (promiseAll replies) \<longleftrightarrow> summaryReply replies = TextRejects)
 \<and> view (handleStartProcessing replies now transcriptText lectureTitle exam frame vid prev)
     = (if summaryReply replies = TextRejects then UPLOAD else DASHBOARD)"
proof -
  have fixed: "generateChapters JsonRejects = Inr []" "generateChapters JsonMalformed = Inr []"
    "extractFormulas JsonRejects = Inr []" "extractFormulas JsonMalformed = Inr []"
    "generateQuiz JsonRejects = Inr []" "generateQuiz JsonMalformed = Inr []"
    "generateFlashcards JsonRejects = Inr []" "generateFlashcards JsonMalformed = Inr []"
    "generateExamStrategy JsonRejects = Inr defaultStrategy"
    "generateExamStrategy JsonMalformed = Inr defaultStrategy"
    "generateCheatSheet TextRejects = Inr ''Could not generate cheat sheet.''"
    "generateSummary TextRejects = Inl (Error ''Could not generate summary.'')"
    by (simp_all add: generateChapters_def extractFormulas_def generateQuiz_def
        generateFlashcards_def generateExamStrategy_def generateCheatSheet_def
        generateSummary_def)
  have sm: "isl (generateSummary r7) \<longleftrightarrow> r7 = TextRejects"
    by (cases r7) (simp_all add: generateSummary_def)
  have vw: "view (handleStartProcessing replies now transcriptText lectureTitle exam frame vid prev)
     = (if summaryReply replies = TextRejects then UPLOAD else DASHBOARD)"
    by (simp add: handleStartProcessing_view promiseAll_isl)
  from fixed sm vw promiseAll_isl [of replies]
    catching_generators(1) [of r1] catching_generators(2) [of r2]
    catching_generators(3) [of r3] catching_generators(4) [of r4]
    catching_generators(5) [of r5] catching_generators(6) [of r6]
  show ?thesis by blast
qed

text \<open>
  Six requests rejecting at once, the summary alone succeeding: the fan-out resolves.
  The summary alone rejecting: the fan-out fails.
\<close>

theorem generator_failure_policy_witness:
  "view (handleStartProcessing
          \<lparr>summaryReply = TextResponse (Some ''Overview''), chaptersReply = JsonRejects,
           formulasReply = JsonRejects, strategyReply = JsonRejects, quizReply = JsonRejects,
           flashcardsReply = JsonRejects, cheatSheetReply = TextRejects\<rparr>
          0 ''Welcome'' ''Lecture'' UNIVERSITY ONE_WEEK None uploadState) = DASHBOARD
 \<and> view (handleStartProcessing (okReplies\<lparr>summaryReply := TextRejects\<rparr>)
          0 ''Welcome'' ''Lecture'' UNIVERSITY ONE_WEEK None uploadState) = UPLOAD"
  using generator_failure_policy [of _ _ _ _ _ _ _
          "\<lparr>summaryReply = TextResponse (Some ''Overview''), chaptersReply = JsonRejects,
           formulasReply = JsonRejects, strategyReply = JsonRejects, quizReply = JsonRejects,
           flashcardsReply = JsonRejects, cheatSheetReply = TextRejects\<rparr>"
          0 "''Welcome''" "''Lecture''" UNIVERSITY ONE_WEEK None uploadState]
        generator_failure_policy [of _ _ _ _ _ _ _ "okReplies\<lparr>summaryReply := TextRejects\<rparr>"
          0 "''Welcome''" "''Lecture''" UNIVERSITY ONE_WEEK None uploadState]
  by simp

section \<open>Quiz generation\<close>

text \<open>
  Claim C8 does not hold of the code. \<open>types.ts\<close> notes the correct index as 0 to 3 and the
  prompt asks for 4 options, but \<open>generateQuiz\<close> hands on whatever the collaborator's text
  decodes to. A payload with a question of two options and correct index 7 becomes the
  quiz of the bundle, and no click on either of its options scores.
\<close>

theorem generateQuiz_returns_unchecked_payload:
  "generateQuiz (JsonValue [shortQuestion]) = Inr [shortQuestion]
 \<and> quiz (handleStartProcessing (okReplies\<lparr>quizReply := JsonValue [shortQuestion]\<rparr>) 0
          ''Welcome'' ''Lecture'' UNIVERSITY ONE_WEEK None uploadState) = [shortQuestion]
 \<and> length (options shortQuestion) = 2
 \<and> correctAnswerIndex shortQuestion = 7
 \<and> \<not> wellFormedQuestion shortQuestion
 \<and> calculateScore [shortQuestion] (userAnswers (selectAll [(1, 0)] quizInit)) = 0
 \<and> calculateScore [shortQuestion] (userAnswers (selectAll [(1, 1)] quizInit)) = 0"
  by (simp add: generateQuiz_def shortQuestion_def wellFormedQuestion_def
      handleStartProcessing_def finishProcessing_def promiseAll_def bindE_def okReplies_def
      generateSummary_def generateChapters_def extractFormulas_def generateExamStrategy_def
      generateFlashcards_def generateCheatSheet_def orElse_def calculateScore_def
      quizInit_def handleOptionSelect_def)

section \<open>Tutor chat\<close>

lemma toString_digit: "n < 10 \<Longrightarrow> toString n = [digitChar n]"
  by (simp add: toString.simps)

text \<open>
  Claim C3 as stated fails: \<open>chatWithLecture\<close> catches the failure and returns an apology,
  which \<open>handleSendMessage\<close> appends as an assistant message after the user's message.
\<close>

theorem chat_failure_counterexample:
  "handleSendMessage TextRejects 5 6 7 8 askingState
   = \<lparr>chatMessages =
        [welcomeMessage 0,
         \<lparr>message_id = ''5'', sender = SenderUser, message_text = ''Why?'', timestamp = 6\<rparr>,
         \<lparr>message_id = ''8'', sender = SenderAi,
          message_text = ''Sorry, I encountered an error answering that.'', timestamp = 8\<rparr>],
      chatInput = [], isChatLoading = False\<rparr>"
  by (simp add: handleSendMessage_def askingState_def chatWithLecture_def trim_def
      jsWhitespace_def toString_digit digitChar_def Let_def)

text \<open>
  Claim C3, amended. When the request of a tutor chat turn fails, \<open>chatWithLecture\<close>
  returns the text ``Sorry, I encountered an error answering that.''; the turn appends
  the user's message and then this text as an assistant message, makes no further
  request, and clears the composing indicator.
\<close>

theorem chat_failure_appends_apology:
  assumes "trim (chatInput s) \<noteq> []"
  shows "chatWithLecture TextRejects = Inr ''Sorry, I encountered an error answering that.''
       \<and> handleSendMessage TextRejects t1 d1 t2 d2 s
         = \<lparr>chatMessages =
              chatMessages s @
                [\<lparr>message_id = toString t1, sender = SenderUser,
                  message_text = chatInput s, timestamp = d1\<rparr>,
                 \<lparr>message_id = toString (t2 + 1), sender = SenderAi,
                  message_text = ''Sorry, I encountered an error answering that.'',
                  timestamp = d2\<rparr>],
            chatInput = [], isChatLoading = False\<rparr>"
  using assms by (simp add: handleSendMessage_def chatWithLecture_def Let_def)

theorem chat_failure_appends_apology_witness:
  "trim (chatInput askingState) \<noteq> []
 \<and> length (chatMessages (handleSendMessage TextRejects 5 6 7 8 askingState))
     = length (chatMessages askingState) + 2
 \<and> message_text (last (chatMessages (handleSendMessage TextRejects 5 6 7 8 askingState)))
     = ''Sorry, I encountered an error answering that.''
 \<and> \<not> isChatLoading (handleSendMessage TextRejects 5 6 7 8 askingState)"
proof -
  have t: "trim (chatInput askingState) \<noteq> []"
    by (simp add: askingState_def trim_def jsWhitespace_def)
  from chat_failure_appends_apology [OF t, of 5 6 7 8] t show ?thesis by simp
qed

section \<open>Sign-out and reset\<close>

text \<open>
  Claim C4 does not hold of the code. \<open>handleSignOut\<close> and \<open>handleReset\<close> clear the
  lecture, the summary and the quiz (and sign-out the user), but the chapters, formulas,
  strategy, flashcards, cheat sheet and chat history of the dashboard state are all still
  in the state afterwards.
\<close>

theorem signout_reset_retain_artifacts:
  "user (handleSignOut dashboardState) = None
 \<and> lecture (handleSignOut dashboardState) = None
 \<and> summary (handleSignOut dashboardState) = []
 \<and> quiz (handleSignOut dashboardState) = []
 \<and> chapters (handleSignOut dashboardState)
     = [\<lparr>chapter_timestamp = ''00:00'', chapter_title = ''Intro'', chapter_summary = ''Opening.''\<rparr>]
 \<and> formulas (handleSignOut dashboardState)
     = [\<lparr>expression = ''E = mc^2'', description = ''Energy''\<rparr>]
 \<and> strategy (handleSignOut dashboardState) = Some defaultStrategy
 \<and> flashcards (handleSignOut dashboardState)
     = [\<lparr>card_id = 1, card_front = ''F'', card_back = ''B''\<rparr>]
 \<and> cheatSheet (handleSignOut dashboardState) = ''Sheet''
 \<and> chatHistory (handleSignOut dashboardState) = [welcomeMessage 0]
 \<and> lecture (handleReset dashboardState) = None
 \<and> summary (handleReset dashboardState) = []
 \<and> quiz (handleReset dashboardState) = []
 \<and> chapters (handleReset dashboardState)
     = [\<lparr>chapter_timestamp = ''00:00'', chapter_title = ''Intro'', chapter_summary = ''Opening.''\<rparr>]
 \<and> formulas (handleReset dashboardState)
     = [\<lparr>expression = ''E = mc^2'', description = ''Energy''\<rparr>]
 \<and> strategy (handleReset dashboardState) = Some defaultStrategy
 \<and> flashcards (handleReset dashboardState)
     = [\<lparr>card_id = 1, card_front = ''F'', card_back = ''B''\<rparr>]
 \<and> cheatSheet (handleReset dashboardState) = ''Sheet''"
  by (simp add: handleSignOut_def handleReset_def dashboardState_def
      handleStartProcessing_def finishProcessing_def startProcessing_def promiseAll_def
      bindE_def okReplies_def generateSummary_def generateChapters_def extractFormulas_def
      generateExamStrategy_def generateQuiz_def generateFlashcards_def generateCheatSheet_def
      orElse_def uploadState_def handleLogin_def initialAppState_def)

end
